theory Spec2Isabelle
  imports Main
begin

section \<open>The command queue of Maestro Studio (ReplContext.tsx)\<close>

text \<open>
  The development embeds the hook \<open>useRepl\<close> of
  \<open>maestro-studio/web/src/context/ReplContext.tsx\<close>: the queue of commands kept in
  React state, the operations that update it, the sequential run protocol and the
  restore from \<open>localStorage\<close>.

  React's \<open>setRepl (prevRepl => ...)\<close> is a functional update: the updates of one
  operation are applied one after the other, so each is a function from the old state
  to the new one and the operation is their composition. The \<open>setTimeout\<close> delays
  change no state and are left out.
\<close>

subsection \<open>Data model\<close>

text \<open>
  Modelled from the spec: the type declarations \<open>ReplCommandStatus\<close>, \<open>ReplCommand\<close>
  and \<open>Repl\<close> live in \<open>helpers/models\<close>, which is not among the sources. The status is
  one of \<open>pending | running | success | error | canceled\<close>; a command has the fields
  \<open>id\<close>, \<open>yaml\<close> and \<open>status\<close> (the object literal of \<open>parseCommands\<close> shows them), and
  the state has the single field \<open>commands\<close>. The field \<open>id\<close> is written \<open>idC\<close>, since
  \<open>id\<close> is the identity function of HOL.
\<close>

datatype ReplCommandStatus = Pending | Running | Success | Error | Canceled

record ReplCommand =
  idC :: string
  status :: ReplCommandStatus
  yaml :: string

record Repl =
  commands :: "ReplCommand list"

definition initialState :: Repl where
  "initialState = \<lparr>commands = []\<rparr>"

subsection \<open>JavaScript values\<close>

text \<open>
  The values that \<open>JSON.parse\<close> and \<open>YAML.parse\<close> return and that \<open>YAML.stringify\<close> and
  \<open>JSON.stringify\<close> take. An object is the list of its own properties in insertion order.
  Numbers are only tested for being zero here, so they are integers.
\<close>

datatype jsvalue =
    JUndefined
  | JNull
  | JBool bool
  | JNum int
  | JStr string
  | JArr "jsvalue list"
  | JObj "(string \<times> jsvalue) list"

text \<open>\<open>!v\<close> is \<open>\<not> truthy v\<close>: the falsy values are undefined, null, false, 0 and the empty string.\<close>

fun truthy :: "jsvalue \<Rightarrow> bool" where
  "truthy JUndefined = False"
| "truthy JNull = False"
| "truthy (JBool b) = b"
| "truthy (JNum n) = (n \<noteq> 0)"
| "truthy (JStr s) = (s \<noteq> [])"
| "truthy (JArr xs) = True"
| "truthy (JObj ps) = True"

fun nullish :: "jsvalue \<Rightarrow> bool" where
  "nullish JUndefined = True"
| "nullish JNull = True"
| "nullish v = False"

text \<open>
  \<open>v.k\<close> for a value that is neither null nor undefined and a key \<open>k\<close> that no prototype
  defines (\<open>runScript\<close>, \<open>file\<close>, \<open>env\<close>, \<open>mode\<close>, \<open>api\<close>, \<open>behavior\<close>, \<open>yaml\<close>): the own
  property of an object, undefined otherwise.
\<close>

fun getProp :: "jsvalue \<Rightarrow> string \<Rightarrow> jsvalue" where
  "getProp (JObj ps) k = (case map_of ps k of Some v \<Rightarrow> v | None \<Rightarrow> JUndefined)"
| "getProp v k = JUndefined"

text \<open>\<open>v?.k\<close>: undefined when \<open>v\<close> is null or undefined.\<close>

definition optProp :: "jsvalue \<Rightarrow> string \<Rightarrow> jsvalue" where
  "optProp v k = (if nullish v then JUndefined else getProp v k)"

text \<open>\<open>a || b\<close>.\<close>

definition or_else :: "jsvalue \<Rightarrow> jsvalue \<Rightarrow> jsvalue" where
  "or_else a b = (if truthy a then a else b)"

subsection \<open>The environment of the hook\<close>

text \<open>
  What the hook calls and does not define: the remote API (\<open>API.runCommand\<close>,
  \<open>API.getMock\<close>, \<open>API.flushMock\<close> of the module \<open>api/api\<close>, which is not among the
  sources), \<open>uuidv4\<close>, and the codecs of the \<open>yaml\<close> package and of \<open>JSON\<close>. They are
  parameters, and every theorem holds for all of them. The answer of the API to a call may depend on all the
  calls made before it; a rejected promise carries the \<open>message\<close> of its error, which may
  be absent. The n-th call of \<open>uuidv4\<close> returns \<open>uuidv4 E n\<close>. A parser returns \<open>None\<close>
  where it throws.
\<close>

datatype api_call = RunCommand string bool | GetMock | FlushMock

datatype api_response = Resolved string | Rejected "string option"

datatype error = MalformedInput | SyntaxError | TypeError | ApiError "string option"

record env =
  api :: "api_call list \<Rightarrow> api_call \<Rightarrow> api_response"
  uuidv4 :: "nat \<Rightarrow> string"
  YAML_parse :: "string \<Rightarrow> jsvalue option"
  YAML_stringify :: "jsvalue \<Rightarrow> string"
  JSON_parse :: "string \<Rightarrow> jsvalue option"
  JSON_stringify :: "jsvalue \<Rightarrow> string"

text \<open>
  The state of the provider (\<open>repl\<close>, \<open>errorMessage\<close>, \<open>isMockGenerationEnabled\<close>), with
  the calls made to the API so far and the number of ids drawn from \<open>uuidv4\<close>.
\<close>

record state =
  repl :: Repl
  errorMessage :: "string option"
  isMockGenerationEnabled :: bool
  calls :: "api_call list"
  uuids :: nat

definition setRepl :: "(Repl \<Rightarrow> Repl) \<Rightarrow> state \<Rightarrow> state" where
  "setRepl f s = s\<lparr>repl := f (repl s)\<rparr>"

definition setErrorMessage :: "string option \<Rightarrow> state \<Rightarrow> state" where
  "setErrorMessage m s = s\<lparr>errorMessage := m\<rparr>"

definition toggleMockGeneration :: "state \<Rightarrow> state" where
  "toggleMockGeneration s = s\<lparr>isMockGenerationEnabled := \<not> isMockGenerationEnabled s\<rparr>"

definition await :: "env \<Rightarrow> api_call \<Rightarrow> state \<Rightarrow> api_response \<times> state" where
  "await E c s = (api E (calls s) c, s\<lparr>calls := calls s @ [c]\<rparr>)"

subsection \<open>Updates of the queue\<close>

text \<open>The updaters passed to \<open>setRepl\<close>, as functions on the state.\<close>

definition setCommandStatus :: "string \<Rightarrow> ReplCommandStatus \<Rightarrow> Repl \<Rightarrow> Repl" where
  "setCommandStatus i commandStatus prevRepl =
     prevRepl\<lparr>commands :=
       map (\<lambda>command. if idC command = i then command\<lparr>status := commandStatus\<rparr> else command)
         (commands prevRepl)\<rparr>"

definition deleteCommands :: "string list \<Rightarrow> Repl \<Rightarrow> Repl" where
  "deleteCommands ids prevRepl =
     prevRepl\<lparr>commands := filter (\<lambda>command. idC command \<notin> set ids) (commands prevRepl)\<rparr>"

text \<open>
  \<open>reorderCommands\<close>: the \<open>Map\<close> built by \<open>reduce\<close> keeps, for each id, the last command
  set under it; the first \<open>forEach\<close> pushes the command of each id that the map knows, the
  second one every command whose id is not in \<open>ids\<close>.
\<close>

definition commandMap :: "ReplCommand list \<Rightarrow> (string \<rightharpoonup> ReplCommand)" where
  "commandMap cs = fold (\<lambda>command acc. acc(idC command \<mapsto> command)) cs Map.empty"

definition reorderCommands :: "string list \<Rightarrow> Repl \<Rightarrow> Repl" where
  "reorderCommands ids prevRepl =
     (let m = commandMap (commands prevRepl);
          newCommands1 = fold (\<lambda>i acc. case m i of Some command \<Rightarrow> acc @ [command] | None \<Rightarrow> acc)
                           ids [];
          newCommands2 = fold (\<lambda>command acc. if idC command \<notin> set ids then acc @ [command] else acc)
                           (commands prevRepl) newCommands1
      in prevRepl\<lparr>commands := newCommands2\<rparr>)"

text \<open>
  The updater of \<open>runCommand\<close> that inserts the mock commands. \<open>findIndex\<close> is -1 when no
  element satisfies the predicate; \<open>splice (start, 0, item)\<close> counts a negative start from
  the end and clamps it to the array.
\<close>

fun findIndex :: "('a \<Rightarrow> bool) \<Rightarrow> 'a list \<Rightarrow> int" where
  "findIndex P [] = -1"
| "findIndex P (x # xs) =
     (if P x then 0 else (let r = findIndex P xs in if r < 0 then -1 else r + 1))"

definition splice0 :: "int \<Rightarrow> 'a \<Rightarrow> 'a list \<Rightarrow> 'a list" where
  "splice0 start item xs =
     (let len = int (length xs);
          k = (if start < 0 then max (len + start) 0 else min start len)
      in take (nat k) xs @ item # drop (nat k) xs)"

fun spliceAll :: "int \<Rightarrow> 'a list \<Rightarrow> 'a list \<Rightarrow> 'a list" where
  "spliceAll index [] newCommands = newCommands"
| "spliceAll index (mockReplCommand # rest) newCommands =
     spliceAll (index + 1) rest (splice0 index mockReplCommand newCommands)"

definition insertMocks :: "string \<Rightarrow> ReplCommand list \<Rightarrow> Repl \<Rightarrow> Repl" where
  "insertMocks i mockReplCommands prevRepl =
     prevRepl\<lparr>commands :=
       spliceAll (findIndex (\<lambda>c. idC c = i) (commands prevRepl)) mockReplCommands
         (commands prevRepl)\<rparr>"

subsection \<open>Parsing\<close>

fun newCommands :: "env \<Rightarrow> nat \<Rightarrow> string list \<Rightarrow> ReplCommand list" where
  "newCommands E n [] = []"
| "newCommands E n (y # ys) =
     \<lparr>idC = uuidv4 E n, status = Pending, yaml = y\<rparr> # newCommands E (Suc n) ys"

definition documents :: "env \<Rightarrow> jsvalue \<Rightarrow> string list" where
  "documents E parsed =
     (case parsed of JArr os \<Rightarrow> map (YAML_stringify E) os | _ \<Rightarrow> [YAML_stringify E parsed])"

definition parseCommands :: "env \<Rightarrow> string \<Rightarrow> state \<Rightarrow> (error + ReplCommand list) \<times> state" where
  "parseCommands E text s =
     (case YAML_parse E text of
        None \<Rightarrow> (Inl MalformedInput, s)
      | Some parsed \<Rightarrow>
          (let yamls = documents E parsed
           in (Inr (newCommands E (uuids s) yamls), s\<lparr>uuids := uuids s + length yamls\<rparr>)))"

subsection \<open>Mock capture\<close>

text \<open>
  The body of the \<open>map\<close> in \<open>runGetMocks\<close>. \<open>item.runScript\<close> throws a TypeError when the
  item is null; the reads after it are guarded by \<open>?.\<close> or made on a truthy value, so for
  any other item the body returns the object \<open>mockObject item\<close>.
\<close>

definition mockObject :: "jsvalue \<Rightarrow> jsvalue" where
  "mockObject item =
     (let runScript = getProp item ''runScript'';
          env = or_else (optProp runScript ''env'') (JObj [])
      in JObj [(''runScript'', JObj
           [(''file'', or_else (optProp runScript ''file'') (JStr ''script/reproxy.js'')),
            (''env'', JObj [(''mode'', getProp env ''mode''),
                            (''api'', getProp env ''api''),
                            (''behavior'', getProp env ''behavior'')])])])"

definition mockResult :: "jsvalue \<Rightarrow> error + jsvalue" where
  "mockResult item = (if nullish item then Inl TypeError else Inr (mockObject item))"

fun mockYamls :: "env \<Rightarrow> jsvalue list \<Rightarrow> error + string list" where
  "mockYamls E [] = Inr []"
| "mockYamls E (item # items) =
     (case mockResult item of
        Inl e \<Rightarrow> Inl e
      | Inr v \<Rightarrow> (case mockYamls E items of
                    Inl e \<Rightarrow> Inl e
                  | Inr ys \<Rightarrow> Inr (YAML_stringify E v # ys)))"

fun flatParse :: "env \<Rightarrow> string list \<Rightarrow> state \<Rightarrow> (error + ReplCommand list) \<times> state" where
  "flatParse E [] s = (Inr [], s)"
| "flatParse E (y # ys) s =
     (case parseCommands E y s of
        (Inl e, s1) \<Rightarrow> (Inl e, s1)
      | (Inr cs, s1) \<Rightarrow>
          (case flatParse E ys s1 of
             (Inl e, s2) \<Rightarrow> (Inl e, s2)
           | (Inr ds, s2) \<Rightarrow> (Inr (cs @ ds), s2)))"

definition parsingFailed :: "state \<Rightarrow> (error + ReplCommand list) \<times> state" where
  "parsingFailed s = (Inr [], setErrorMessage (Some ''Error parsing API response'') s)"

definition runGetMocks :: "env \<Rightarrow> state \<Rightarrow> (error + ReplCommand list) \<times> state" where
  "runGetMocks E s =
     (case await E GetMock s of
        (Rejected m, s1) \<Rightarrow> (Inl (ApiError m), s1)
      | (Resolved rawResult, s1) \<Rightarrow>
          (case JSON_parse E rawResult of
             None \<Rightarrow> parsingFailed s1
           | Some (JArr parsedResults) \<Rightarrow>
               (case mockYamls E parsedResults of
                  Inl e \<Rightarrow> (Inl e, s1)
                | Inr ys \<Rightarrow>
                    (case flatParse E ys s1 of
                       (Inl e, s2) \<Rightarrow> (Inl e, s2)
                     | (Inr cs, s2) \<Rightarrow> (Inr (map (\<lambda>command. command\<lparr>status := Success\<rparr>) cs), s2)))
           | Some _ \<Rightarrow> parsingFailed s1))"

subsection \<open>Running commands\<close>

definition runCommand :: "env \<Rightarrow> ReplCommand \<Rightarrow> state \<Rightarrow> bool \<times> state" where
  "runCommand E command s =
     (let failed = (\<lambda>s'. (False, setRepl (setCommandStatus (idC command) Error) s'));
          succeeded = (\<lambda>s'. (True, setRepl (setCommandStatus (idC command) Success) s'))
      in case await E (RunCommand (yaml command) False)
                (setRepl (setCommandStatus (idC command) Running) s) of
           (Rejected m, s1) \<Rightarrow> failed s1
         | (Resolved _, s1) \<Rightarrow>
             (if isMockGenerationEnabled s1 then
                (case runGetMocks E s1 of
                   (Inl e, s2) \<Rightarrow> failed s2
                 | (Inr mockReplCommands, s2) \<Rightarrow>
                     succeeded (setRepl (insertMocks (idC command) mockReplCommands) s2))
              else
                (case await E FlushMock s1 of
                   (Rejected m, s2) \<Rightarrow> failed s2
                 | (Resolved _, s2) \<Rightarrow> succeeded s2)))"

text \<open>The loop of \<open>runCommands\<close>, with its flag \<open>abort\<close>.\<close>

fun runLoop :: "env \<Rightarrow> bool \<Rightarrow> ReplCommand list \<Rightarrow> state \<Rightarrow> bool \<times> state" where
  "runLoop E abort [] s = (abort, s)"
| "runLoop E abort (command # rest) s =
     (if abort then runLoop E abort rest (setRepl (setCommandStatus (idC command) Canceled) s)
      else (case runCommand E command s of
              (success, s1) \<Rightarrow> runLoop E (if \<not> success then True else abort) rest s1))"

definition markPending :: "ReplCommand list \<Rightarrow> state \<Rightarrow> state" where
  "markPending cs s = fold (\<lambda>command. setRepl (setCommandStatus (idC command) Pending)) cs s"

definition runCommands :: "env \<Rightarrow> ReplCommand list \<Rightarrow> state \<Rightarrow> bool \<times> state" where
  "runCommands E cs s = (case runLoop E False cs (markPending cs s) of (abort, s1) \<Rightarrow> (\<not> abort, s1))"


subsection \<open>Submitting text\<close>

text \<open>
  The validation loop of \<open>runCommandYaml\<close>: \<open>Some m\<close> is the \<open>message\<close> field of the first
  error caught. \<open>e.message || 'Failed to run command'\<close> takes the default when the
  message is absent or empty.
\<close>

fun dryRun :: "env \<Rightarrow> ReplCommand list \<Rightarrow> state \<Rightarrow> string option option \<times> state" where
  "dryRun E [] s = (None, s)"
| "dryRun E (command # rest) s =
     (case await E (RunCommand (yaml command) True) s of
        (Rejected m, s1) \<Rightarrow> (Some m, s1)
      | (Resolved _, s1) \<Rightarrow> dryRun E rest s1)"

definition messageOr :: "string option \<Rightarrow> string \<Rightarrow> string" where
  "messageOr m d = (case m of None \<Rightarrow> d | Some t \<Rightarrow> if t = [] then d else t)"

definition runCommandYaml :: "env \<Rightarrow> string \<Rightarrow> state \<Rightarrow> (error + bool) \<times> state" where
  "runCommandYaml E text s =
     (case parseCommands E text s of
        (Inl e, s1) \<Rightarrow> (Inl e, s1)
      | (Inr cs, s1) \<Rightarrow>
          (case dryRun E cs s1 of
             (Some m, s2) \<Rightarrow>
               (Inr False, setErrorMessage (Some (messageOr m ''Failed to run command'')) s2)
           | (None, s2) \<Rightarrow>
               (case runCommands E cs
                       (setRepl (\<lambda>prevRepl. prevRepl\<lparr>commands := commands prevRepl @ cs\<rparr>) s2) of
                  (ok, s3) \<Rightarrow> (Inr ok, s3))))"

text \<open>The payloads of the commands that \<open>parseCommands\<close> makes of a text.\<close>

definition payloadsOf :: "env \<Rightarrow> string \<Rightarrow> string list" where
  "payloadsOf E y = (case YAML_parse E y of None \<Rightarrow> [] | Some parsed \<Rightarrow> documents E parsed)"

subsection \<open>Observing a run\<close>

text \<open>The payloads sent to the API for execution (not dry runs), in the order of the calls.\<close>

fun dispatched :: "api_call list \<Rightarrow> string list" where
  "dispatched [] = []"
| "dispatched (RunCommand y dry # cs) = (if dry then dispatched cs else y # dispatched cs)"
| "dispatched (c # cs) = dispatched cs"


subsection \<open>Persistence\<close>

text \<open>
  The effect of the provider writes \<open>JSON.stringify (repl)\<close> under the key \<open>repl\<close> of
  \<open>localStorage\<close>. \<open>replValue\<close> is the state as the JavaScript object that
  \<open>JSON.stringify\<close> receives: the properties of a command are in the order in which
  \<open>parseCommands\<close> writes them, and a spread keeps that order.
\<close>

type_synonym localStorage = "string \<rightharpoonup> string"

fun statusName :: "ReplCommandStatus \<Rightarrow> string" where
  "statusName Pending = ''pending''"
| "statusName Running = ''running''"
| "statusName Success = ''success''"
| "statusName Error = ''error''"
| "statusName Canceled = ''canceled''"

definition commandValue :: "ReplCommand \<Rightarrow> jsvalue" where
  "commandValue c =
     JObj [(''id'', JStr (idC c)), (''status'', JStr (statusName (status c))), (''yaml'', JStr (yaml c))]"

definition replValue :: "Repl \<Rightarrow> jsvalue" where
  "replValue r = JObj [(''commands'', JArr (map commandValue (commands r)))]"

definition persist :: "env \<Rightarrow> Repl \<Rightarrow> localStorage \<Rightarrow> localStorage" where
  "persist E r ls = ls(''repl'' \<mapsto> JSON_stringify E (replValue r))"

text \<open>
  The reviver of \<open>restoreRepl\<close>, and the walk in which \<open>JSON.parse\<close> applies it: to every
  property of every object and every element of every array, the innermost first, and
  last to the root under the key \<open>""\<close>. The key of an array element is its index in
  decimal. This reviver never returns undefined, so the walk deletes no property.
\<close>

definition reviver :: "string \<Rightarrow> jsvalue \<Rightarrow> jsvalue" where
  "reviver key v = (if key = ''command'' \<and> \<not> truthy v then JArr [] else v)"

fun indexKey :: "nat \<Rightarrow> string" where
  "indexKey n =
     (if n < 10 then [''0123456789'' ! n] else indexKey (n div 10) @ [''0123456789'' ! (n mod 10)])"

declare indexKey.simps [simp del]

fun internalize :: "string \<Rightarrow> jsvalue \<Rightarrow> jsvalue"
  and internalizeElements :: "nat \<Rightarrow> jsvalue list \<Rightarrow> jsvalue list"
  and internalizeProperties :: "(string \<times> jsvalue) list \<Rightarrow> (string \<times> jsvalue) list" where
  "internalize key (JArr xs) = reviver key (JArr (internalizeElements 0 xs))"
| "internalize key (JObj ps) = reviver key (JObj (internalizeProperties ps))"
| "internalize key v = reviver key v"
| "internalizeElements n [] = []"
| "internalizeElements n (x # xs) = internalize (indexKey n) x # internalizeElements (Suc n) xs"
| "internalizeProperties [] = []"
| "internalizeProperties ((k, v) # ps) = (k, internalize k v) # internalizeProperties ps"

text \<open>
  \<open>restoreRepl\<close>: \<open>!savedRepl\<close> holds when the key is absent and when the text is empty;
  a text that \<open>JSON.parse\<close> rejects makes it throw.
\<close>

definition restoreRepl :: "env \<Rightarrow> localStorage \<Rightarrow> error + jsvalue" where
  "restoreRepl E ls =
     (case ls ''repl'' of
        None \<Rightarrow> Inr (replValue initialState)
      | Some savedRepl \<Rightarrow>
          (if savedRepl = [] then Inr (replValue initialState)
           else (case JSON_parse E savedRepl of
                   None \<Rightarrow> Inl SyntaxError
                 | Some v \<Rightarrow> Inr (internalize [] v))))"

text \<open>
  The restored value is used as a \<open>Repl\<close> without any check. \<open>readRepl\<close> reads the
  fields back: it is defined on the values that have the shape of a \<open>Repl\<close>.
\<close>

definition readStatus :: "jsvalue \<Rightarrow> ReplCommandStatus option" where
  "readStatus v =
     (if v = JStr ''pending'' then Some Pending
      else if v = JStr ''running'' then Some Running
      else if v = JStr ''success'' then Some Success
      else if v = JStr ''error'' then Some Error
      else if v = JStr ''canceled'' then Some Canceled
      else None)"

definition readCommand :: "jsvalue \<Rightarrow> ReplCommand option" where
  "readCommand v =
     (case (getProp v ''id'', readStatus (getProp v ''status''), getProp v ''yaml'') of
        (JStr i, Some st, JStr y) \<Rightarrow> Some \<lparr>idC = i, status = st, yaml = y\<rparr>
      | _ \<Rightarrow> None)"

fun readCommands :: "jsvalue list \<Rightarrow> ReplCommand list option" where
  "readCommands [] = Some []"
| "readCommands (v # vs) =
     (case readCommand v of
        None \<Rightarrow> None
      | Some c \<Rightarrow> (case readCommands vs of None \<Rightarrow> None | Some cs \<Rightarrow> Some (c # cs)))"

definition readRepl :: "jsvalue \<Rightarrow> Repl option" where
  "readRepl v =
     (case getProp v ''commands'' of
        JArr vs \<Rightarrow> (case readCommands vs of None \<Rightarrow> None | Some cs \<Rightarrow> Some \<lparr>commands = cs\<rparr>)
      | _ \<Rightarrow> None)"

text \<open>
  \<open>plain v\<close>: no property of an object inside \<open>v\<close> is named \<open>command\<close> and holds a falsy
  value. These are the values on which the reviver has nothing to replace.
\<close>

fun plain :: "jsvalue \<Rightarrow> bool"
  and plainElements :: "jsvalue list \<Rightarrow> bool"
  and plainProperties :: "(string \<times> jsvalue) list \<Rightarrow> bool" where
  "plain (JArr xs) = plainElements xs"
| "plain (JObj ps) = plainProperties ps"
| "plain v = True"
| "plainElements [] = True"
| "plainElements (x # xs) = (plain x \<and> plainElements xs)"
| "plainProperties [] = True"
| "plainProperties ((k, v) # ps) = ((k \<noteq> ''command'' \<or> truthy v) \<and> plain v \<and> plainProperties ps)"

subsection \<open>A small queue for the examples\<close>

definition cmdA :: ReplCommand where
  "cmdA = \<lparr>idC = ''a'', status = Success, yaml = ''tapOn: A''\<rparr>"

definition cmdB :: ReplCommand where
  "cmdB = \<lparr>idC = ''b'', status = Pending, yaml = ''tapOn: B''\<rparr>"

definition cmdC :: ReplCommand where
  "cmdC = \<lparr>idC = ''c'', status = Error, yaml = ''tapOn: C''\<rparr>"

definition queueABC :: Repl where
  "queueABC = \<lparr>commands = [cmdA, cmdB, cmdC]\<rparr>"

subsection \<open>A small environment for the examples\<close>

text \<open>
  The codecs of the examples are tables over the few texts and values the examples use,
  with the answers the \<open>yaml\<close> package and \<open>JSON\<close> give on them. The API of the examples
  rejects every run (dry or not) of the payload \<open>bad\<close> with the given message, and answers
  \<open>getMock\<close> with the text \<open>capture\<close>.
\<close>

definition nl :: string where
  "nl = [CHR 0x0A]"

definition objA :: jsvalue where
  "objA = JObj [(''tapOn'', JStr ''A'')]"

definition objB :: jsvalue where
  "objB = JObj [(''tapOn'', JStr ''B'')]"

definition docA :: string where
  "docA = ''tapOn: A'' @ nl"

definition docB :: string where
  "docB = ''tapOn: B'' @ nl"

definition docAB :: string where
  "docAB = ''- tapOn: A'' @ nl @ ''- tapOn: B'' @ nl"

definition record1 :: jsvalue where
  "record1 = JObj [(''runScript'', JObj [(''file'', JStr ''mock.js''),
     (''env'', JObj [(''mode'', JStr ''replay''), (''api'', JStr ''/a''), (''behavior'', JStr ''ok'')])])]"

definition record2 :: jsvalue where
  "record2 = JObj [(''runScript'', JObj [(''file'', JStr ''mock.js''),
     (''env'', JObj [(''mode'', JStr ''replay''), (''api'', JStr ''/b''), (''behavior'', JStr ''ok'')])])]"

definition mockDoc1 :: string where
  "mockDoc1 = ''runScript:'' @ nl @ ''  file: mock.js'' @ nl @ ''  env:'' @ nl
     @ ''    mode: replay'' @ nl @ ''    api: /a'' @ nl @ ''    behavior: ok'' @ nl"

definition mockDoc2 :: string where
  "mockDoc2 = ''runScript:'' @ nl @ ''  file: mock.js'' @ nl @ ''  env:'' @ nl
     @ ''    mode: replay'' @ nl @ ''    api: /b'' @ nl @ ''    behavior: ok'' @ nl"

definition capture2 :: string where
  \<open>capture2 = ''[{"runScript":{"file":"mock.js","env":{"mode":"replay","api":"/a","behavior":"ok"}}},''
     @ ''{"runScript":{"file":"mock.js","env":{"mode":"replay","api":"/b","behavior":"ok"}}}]''\<close>

definition demo_YAML_parse :: "string \<Rightarrow> jsvalue option" where
  "demo_YAML_parse t =
     (if t = docA then Some objA
      else if t = docB then Some objB
      else if t = docAB then Some (JArr [objA, objB])
      else if t = mockDoc1 then Some record1
      else if t = mockDoc2 then Some record2
      else None)"

definition demo_YAML_stringify :: "jsvalue \<Rightarrow> string" where
  "demo_YAML_stringify v =
     (if v = objA then docA
      else if v = objB then docB
      else if v = record1 then mockDoc1
      else if v = record2 then mockDoc2
      else ''null'' @ nl)"

definition demo_uuidv4 :: "nat \<Rightarrow> string" where
  "demo_uuidv4 n = ''uuid-'' @ replicate n (CHR ''i'')"

definition demo_api :: "string \<Rightarrow> string option \<Rightarrow> string \<Rightarrow> api_call list \<Rightarrow> api_call \<Rightarrow> api_response" where
  "demo_api bad message capture log c =
     (case c of
        RunCommand y dry \<Rightarrow> if y = bad then Rejected message else Resolved []
      | GetMock \<Rightarrow> Resolved capture
      | FlushMock \<Rightarrow> Resolved [])"

definition storedABC :: string where
  \<open>storedABC = ''{"commands":[{"id":"a","status":"success","yaml":"tapOn: A"},''
     @ ''{"id":"b","status":"pending","yaml":"tapOn: B"},''
     @ ''{"id":"c","status":"error","yaml":"tapOn: C"}]}''\<close>

definition storedNoYaml :: string where
  \<open>storedNoYaml = ''{"commands":[{"id":"a","status":"pending"}]}''\<close>

definition entryNoYaml :: jsvalue where
  "entryNoYaml = JObj [(''id'', JStr ''a''), (''status'', JStr ''pending'')]"

definition storedLegacy :: string where
  \<open>storedLegacy = ''{"commands":[{"id":"a","status":"pending","command":null}]}''\<close>

definition demo_JSON_parse :: "string \<Rightarrow> jsvalue option" where
  "demo_JSON_parse t =
     (if t = capture2 then Some (JArr [record1, record2])
      else if t = ''{}'' then Some (JObj [])
      else if t = ''[null]'' then Some (JArr [JNull])
      else if t = storedABC then Some (replValue queueABC)
      else if t = storedNoYaml then Some (JObj [(''commands'', JArr [entryNoYaml])])
      else if t = storedLegacy then
        Some (JObj [(''commands'', JArr [JObj [(''id'', JStr ''a''), (''status'', JStr ''pending''),
                                               (''command'', JNull)]])])
      else None)"

definition demo_JSON_stringify :: "jsvalue \<Rightarrow> string" where
  "demo_JSON_stringify v = (if v = replValue queueABC then storedABC else ''null'')"

definition demoEnv :: "string \<Rightarrow> string option \<Rightarrow> string \<Rightarrow> env" where
  "demoEnv bad message capture =
     \<lparr>api = demo_api bad message capture,
      uuidv4 = demo_uuidv4,
      YAML_parse = demo_YAML_parse,
      YAML_stringify = demo_YAML_stringify,
      JSON_parse = demo_JSON_parse,
      JSON_stringify = demo_JSON_stringify\<rparr>"

definition demoState :: "bool \<Rightarrow> state" where
  "demoState mock =
     \<lparr>repl = queueABC, errorMessage = None, isMockGenerationEnabled = mock, calls = [], uuids = 0\<rparr>"

section \<open>Theorems\<close>

subsection \<open>Status transitions\<close>

lemma setCommandStatus_commands:
  "commands (setCommandStatus i st r) =
     map (\<lambda>c. if idC c = i then c\<lparr>status := st\<rparr> else c) (commands r)"
  by (simp add: setCommandStatus_def)

text \<open>
  C10. The status transition changes nothing but the status field of the commands whose
  id is the given one: the ids and the payloads of all commands, in order, and the length
  of the queue are as before; a command with another id is the command it was; the
  commands with the given id get the target status; and when no command has the id, the
  state is the one before.
\<close>

theorem setCommandStatus_frame:
  "map idC (commands (setCommandStatus i st r)) = map idC (commands r)
   \<and> map yaml (commands (setCommandStatus i st r)) = map yaml (commands r)
   \<and> length (commands (setCommandStatus i st r)) = length (commands r)
   \<and> (\<forall>n < length (commands r).
        (idC (commands r ! n) \<noteq> i \<longrightarrow> commands (setCommandStatus i st r) ! n = commands r ! n)
      \<and> (idC (commands r ! n) = i \<longrightarrow>
           commands (setCommandStatus i st r) ! n = (commands r ! n)\<lparr>status := st\<rparr>))
   \<and> (i \<notin> idC ` set (commands r) \<longrightarrow> setCommandStatus i st r = r)"
proof -
  have ids: "map idC (commands (setCommandStatus i st r)) = map idC (commands r)"
    by (simp add: setCommandStatus_commands)
  have ys: "map yaml (commands (setCommandStatus i st r)) = map yaml (commands r)"
    by (simp add: setCommandStatus_commands)
  have len: "length (commands (setCommandStatus i st r)) = length (commands r)"
    by (simp add: setCommandStatus_commands)
  have pt: "\<forall>n < length (commands r).
        (idC (commands r ! n) \<noteq> i \<longrightarrow> commands (setCommandStatus i st r) ! n = commands r ! n)
      \<and> (idC (commands r ! n) = i \<longrightarrow>
           commands (setCommandStatus i st r) ! n = (commands r ! n)\<lparr>status := st\<rparr>)"
    by (simp add: setCommandStatus_commands)
  have absent: "i \<notin> idC ` set (commands r) \<longrightarrow> setCommandStatus i st r = r"
  proof
    assume a: "i \<notin> idC ` set (commands r)"
    have "map (\<lambda>c. if idC c = i then c\<lparr>status := st\<rparr> else c) (commands r) = commands r"
      using a by (intro map_idI) auto
    then show "setCommandStatus i st r = r"
      by (simp add: setCommandStatus_def)
  qed
  from ids ys len pt absent show ?thesis by blast
qed

theorem setCommandStatus_frame_witness:
  "length (commands (setCommandStatus ''b'' Running queueABC)) = 3
   \<and> commands (setCommandStatus ''b'' Running queueABC) ! 0 = cmdA
   \<and> commands (setCommandStatus ''b'' Running queueABC) ! 1 = cmdB\<lparr>status := Running\<rparr>
   \<and> commands (setCommandStatus ''b'' Running queueABC) ! 2 = cmdC
   \<and> setCommandStatus ''z'' Running queueABC = queueABC"
proof -
  have len: "length (commands queueABC) = 3"
    by (simp add: queueABC_def)
  have ids: "idC (commands queueABC ! 0) \<noteq> ''b'' \<and> idC (commands queueABC ! 1) = ''b''
      \<and> idC (commands queueABC ! 2) \<noteq> ''b''"
    by (simp add: queueABC_def cmdA_def cmdB_def cmdC_def)
  have nth: "commands (setCommandStatus ''b'' Running queueABC) ! 0 = cmdA
      \<and> commands (setCommandStatus ''b'' Running queueABC) ! 1 = cmdB\<lparr>status := Running\<rparr>
      \<and> commands (setCommandStatus ''b'' Running queueABC) ! 2 = cmdC"
    using setCommandStatus_frame [of "''b''" Running queueABC] len ids
    by (simp add: queueABC_def)
  have l3: "length (commands (setCommandStatus ''b'' Running queueABC)) = 3"
    using setCommandStatus_frame [of "''b''" Running queueABC] len by simp
  have "''z'' \<notin> idC ` set (commands queueABC)"
    by (simp add: queueABC_def cmdA_def cmdB_def cmdC_def)
  then have absent: "setCommandStatus ''z'' Running queueABC = queueABC"
    using setCommandStatus_frame [of "''z''" Running queueABC] by blast
  from l3 nth absent show ?thesis by simp
qed

subsection \<open>Reordering\<close>

lemma fold_set_lookup:
  "fold (\<lambda>command acc. acc(idC command \<mapsto> command)) cs m i =
     (case filter (\<lambda>c. idC c = i) cs of [] \<Rightarrow> m i | y # ys \<Rightarrow> Some (last (y # ys)))"
proof (induction cs arbitrary: m)
  case Nil
  then show ?case by simp
next
  case (Cons c cs)
  have "fold (\<lambda>command acc. acc(idC command \<mapsto> command)) (c # cs) m i
      = fold (\<lambda>command acc. acc(idC command \<mapsto> command)) cs (m(idC c \<mapsto> c)) i"
    by simp
  also have "\<dots> = (case filter (\<lambda>c. idC c = i) cs of [] \<Rightarrow> (m(idC c \<mapsto> c)) i
                       | y # ys \<Rightarrow> Some (last (y # ys)))"
    by (rule Cons.IH)
  also have "\<dots> = (case filter (\<lambda>c. idC c = i) (c # cs) of [] \<Rightarrow> m i
                       | y # ys \<Rightarrow> Some (last (y # ys)))"
    by (simp split: list.splits)
  finally show ?case .
qed

lemma commandMap_lookup:
  "commandMap cs i =
     (case filter (\<lambda>c. idC c = i) cs of [] \<Rightarrow> None | y # ys \<Rightarrow> Some (last (y # ys)))"
  by (simp add: commandMap_def fold_set_lookup)

lemma filter_id_distinct:
  "distinct (map idC cs) \<Longrightarrow> filter (\<lambda>c. idC c = i) cs = [] \<or> (\<exists>c. filter (\<lambda>c. idC c = i) cs = [c])"
proof (induction cs)
  case Nil
  then show ?case by simp
next
  case (Cons a cs)
  have "idC a = i \<Longrightarrow> filter (\<lambda>c. idC c = i) cs = []"
    using Cons.prems by (auto simp: filter_empty_conv image_iff)
  then show ?case using Cons by auto
qed

lemma commandMap_distinct:
  assumes "distinct (map idC cs)"
  shows "(case commandMap cs i of Some command \<Rightarrow> [command] | None \<Rightarrow> []) = filter (\<lambda>c. idC c = i) cs"
  using filter_id_distinct [OF assms, of i]
  by (auto simp: commandMap_lookup)

lemma fold_push_known:
  "fold (\<lambda>i acc. case m i of Some command \<Rightarrow> acc @ [command] | None \<Rightarrow> acc) ids acc =
     acc @ concat (map (\<lambda>i. case m i of Some command \<Rightarrow> [command] | None \<Rightarrow> []) ids)"
  by (induction ids arbitrary: acc) (auto split: option.splits)

lemma fold_push_rest:
  "fold (\<lambda>command acc. if P command then acc @ [command] else acc) cs acc = acc @ filter P cs"
  by (induction cs arbitrary: acc) auto

lemma reorderCommands_commands:
  "commands (reorderCommands ids r) =
     concat (map (\<lambda>i. case commandMap (commands r) i of Some command \<Rightarrow> [command] | None \<Rightarrow> []) ids)
     @ filter (\<lambda>c. idC c \<notin> set ids) (commands r)"
  by (simp add: reorderCommands_def Let_def fold_push_known fold_push_rest)

lemma filter_id_member:
  "distinct (map idC xs) \<Longrightarrow> c \<in> set xs \<Longrightarrow> filter (\<lambda>d. idC d = idC c) xs = [c]"
proof (induction xs)
  case Nil
  then show ?case by simp
next
  case (Cons a xs)
  show ?case
  proof (cases "a = c")
    case True
    then have "filter (\<lambda>d. idC d = idC c) xs = []"
      using Cons.prems by (auto simp: filter_empty_conv image_iff)
    with True show ?thesis by simp
  next
    case False
    then have "c \<in> set xs" using Cons.prems by simp
    moreover have "idC a \<noteq> idC c" using Cons.prems \<open>c \<in> set xs\<close> by auto
    ultimately show ?thesis using Cons by simp
  qed
qed

lemma concat_own_ids:
  "distinct (map idC xs) \<Longrightarrow> set cs \<subseteq> set xs \<Longrightarrow>
   concat (map (\<lambda>d. filter (\<lambda>c. idC c = idC d) xs) cs) = cs"
  by (induction cs) (auto simp: filter_id_member)

text \<open>
  C7. On a queue whose ids are distinct, \<open>reorderCommands ids\<close> yields, for each id of
  \<open>ids\<close> in the given order, the command of that id (nothing for an id that no command
  has), followed by the commands whose id is not in \<open>ids\<close>, in their order in the queue
  and unchanged. With the id sequence of the queue itself the state is unchanged.
\<close>

theorem reorderCommands_spec:
  assumes "distinct (map idC (commands r))"
  shows "commands (reorderCommands ids r) =
           concat (map (\<lambda>i. filter (\<lambda>c. idC c = i) (commands r)) ids)
           @ filter (\<lambda>c. idC c \<notin> set ids) (commands r)
         \<and> reorderCommands (map idC (commands r)) r = r"
proof -
  have a: "commands (reorderCommands ids r) =
           concat (map (\<lambda>i. filter (\<lambda>c. idC c = i) (commands r)) ids)
           @ filter (\<lambda>c. idC c \<notin> set ids) (commands r)" for ids
    by (simp add: reorderCommands_commands commandMap_distinct [OF assms])
  have "commands (reorderCommands (map idC (commands r)) r) = commands r"
    by (simp add: a o_def concat_own_ids [OF assms] filter_empty_conv)
  moreover have "reorderCommands ids r = r\<lparr>commands := commands (reorderCommands ids r)\<rparr>" for ids
    by (simp add: reorderCommands_def Let_def)
  ultimately have "reorderCommands (map idC (commands r)) r = r"
    by (metis Repl.surjective Repl.update_convs(1))
  with a show ?thesis by simp
qed


theorem reorderCommands_spec_witness:
  "commands (reorderCommands [''b'', ''a''] queueABC) = [cmdB, cmdA, cmdC]
   \<and> commands (reorderCommands [''z''] queueABC) = [cmdA, cmdB, cmdC]
   \<and> reorderCommands [''a'', ''b'', ''c''] queueABC = queueABC"
proof -
  have d: "distinct (map idC (commands queueABC))"
    by (simp add: queueABC_def cmdA_def cmdB_def cmdC_def)
  have ids: "map idC (commands queueABC) = [''a'', ''b'', ''c'']"
    by (simp add: queueABC_def cmdA_def cmdB_def cmdC_def)
  have 1: "commands (reorderCommands [''b'', ''a''] queueABC) = [cmdB, cmdA, cmdC]"
    using reorderCommands_spec [OF d, of "[''b'', ''a'']"]
    by (simp add: queueABC_def cmdA_def cmdB_def cmdC_def)
  have 2: "commands (reorderCommands [''z''] queueABC) = [cmdA, cmdB, cmdC]"
    using reorderCommands_spec [OF d, of "[''z'']"]
    by (simp add: queueABC_def cmdA_def cmdB_def cmdC_def)
  have 3: "reorderCommands [''a'', ''b'', ''c''] queueABC = queueABC"
    using reorderCommands_spec [OF d, of "[]"] ids by simp
  from 1 2 3 show ?thesis by simp
qed

subsection \<open>Parsing\<close>

lemma newCommands_yaml: "map yaml (newCommands E n ys) = ys"
  by (induction ys arbitrary: n) auto

lemma newCommands_status: "c \<in> set (newCommands E n ys) \<Longrightarrow> status c = Pending"
  by (induction ys arbitrary: n) auto

lemma newCommands_length: "length (newCommands E n ys) = length ys"
  by (induction ys arbitrary: n) auto

lemma newCommands_ids: "map idC (newCommands E n ys) = map (uuidv4 E) [n ..< n + length ys]"
proof (induction ys arbitrary: n)
  case Nil
  then show ?case by simp
next
  case (Cons y ys)
  have "n < n + length (y # ys)" by simp
  then have "[n ..< n + length (y # ys)] = n # [Suc n ..< n + length (y # ys)]"
    by (rule upt_conv_Cons)
  then have "[n ..< n + length (y # ys)] = n # [Suc n ..< Suc n + length ys]"
    by simp
  then show ?case using Cons.IH [of "Suc n"] by simp
qed

text \<open>
  C8. When the text decodes to a value, \<open>parseCommands\<close> returns one command for each
  element of the value when it is an array, the payload being the element encoded on its
  own, and one command for the whole value otherwise; the payloads are in the order of
  the elements; every command is pending; and the ids are the results of as many new
  calls of \<open>uuidv4\<close>, so that with an injective \<open>uuidv4\<close> they differ from one another and
  from every id drawn before.
\<close>

theorem parseCommands_spec:
  assumes "YAML_parse E text = Some parsed"
  shows "\<exists>cs. parseCommands E text s = (Inr cs, s\<lparr>uuids := uuids s + length cs\<rparr>)
           \<and> map yaml cs = (case parsed of JArr os \<Rightarrow> map (YAML_stringify E) os
                                          | _ \<Rightarrow> [YAML_stringify E parsed])
           \<and> length cs = (case parsed of JArr os \<Rightarrow> length os | _ \<Rightarrow> 1)
           \<and> (\<forall>c \<in> set cs. status c = Pending)
           \<and> map idC cs = map (uuidv4 E) [uuids s ..< uuids s + length cs]
           \<and> (inj (uuidv4 E) \<longrightarrow>
                distinct (map idC cs) \<and> (\<forall>n < uuids s. uuidv4 E n \<notin> idC ` set cs))"
proof -
  define ys where "ys = documents E parsed"
  define cs where "cs = newCommands E (uuids s) ys"
  have len: "length cs = length ys"
    by (simp add: cs_def newCommands_length)
  have run: "parseCommands E text s = (Inr cs, s\<lparr>uuids := uuids s + length cs\<rparr>)"
    using assms by (simp add: parseCommands_def Let_def cs_def ys_def newCommands_length)
  have ys: "ys = (case parsed of JArr os \<Rightarrow> map (YAML_stringify E) os | _ \<Rightarrow> [YAML_stringify E parsed])"
    by (simp add: ys_def documents_def)
  have payloads: "map yaml cs = (case parsed of JArr os \<Rightarrow> map (YAML_stringify E) os
                                          | _ \<Rightarrow> [YAML_stringify E parsed])"
    using ys by (simp add: cs_def newCommands_yaml)
  have count: "length cs = (case parsed of JArr os \<Rightarrow> length os | _ \<Rightarrow> 1)"
    unfolding len ys by (cases parsed) simp_all
  have pending: "\<forall>c \<in> set cs. status c = Pending"
    by (auto simp: cs_def dest: newCommands_status)
  have ids: "map idC cs = map (uuidv4 E) [uuids s ..< uuids s + length cs]"
    unfolding len by (simp add: cs_def newCommands_ids)
  have fresh: "inj (uuidv4 E) \<longrightarrow>
      distinct (map idC cs) \<and> (\<forall>n < uuids s. uuidv4 E n \<notin> idC ` set cs)"
  proof
    assume i: "inj (uuidv4 E)"
    have d: "distinct (map idC cs)"
      unfolding ids using i by (simp add: distinct_map inj_on_def inj_def)
    have "set (map idC cs) = uuidv4 E ` {uuids s ..< uuids s + length cs}"
      unfolding ids by simp
    then have "\<forall>n < uuids s. uuidv4 E n \<notin> set (map idC cs)"
      using i by (auto dest!: injD)
    with d show "distinct (map idC cs) \<and> (\<forall>n < uuids s. uuidv4 E n \<notin> idC ` set cs)"
      by simp
  qed
  from run payloads count pending ids fresh show ?thesis by blast
qed

lemma inj_demo_uuidv4: "inj demo_uuidv4"
  by (simp add: inj_def demo_uuidv4_def)

lemma demoEnv_simps:
  "api (demoEnv bad message capture) = demo_api bad message capture"
  "uuidv4 (demoEnv bad message capture) = demo_uuidv4"
  "YAML_parse (demoEnv bad message capture) = demo_YAML_parse"
  "YAML_stringify (demoEnv bad message capture) = demo_YAML_stringify"
  "JSON_parse (demoEnv bad message capture) = demo_JSON_parse"
  "JSON_stringify (demoEnv bad message capture) = demo_JSON_stringify"
  by (simp_all add: demoEnv_def)

theorem parseCommands_spec_witness:
  "\<exists>cs. parseCommands (demoEnv [] None []) docAB (demoState False)
            = (Inr cs, (demoState False)\<lparr>uuids := 2\<rparr>)
        \<and> map yaml cs = [docA, docB]
        \<and> map idC cs = [''uuid-'', ''uuid-i'']
        \<and> distinct (map idC cs)
        \<and> (\<forall>c \<in> set cs. status c = Pending)"
proof -
  let ?E = "demoEnv [] None []"
  have p: "YAML_parse ?E docAB = Some (JArr [objA, objB])"
    by (simp add: demoEnv_simps demo_YAML_parse_def docAB_def docA_def docB_def nl_def)
  have i: "inj (uuidv4 ?E)"
    by (simp add: demoEnv_simps inj_demo_uuidv4)
  have u: "uuids (demoState False) = 0"
    by (simp add: demoState_def)
  obtain cs where run: "parseCommands ?E docAB (demoState False)
        = (Inr cs, (demoState False)\<lparr>uuids := uuids (demoState False) + length cs\<rparr>)"
    and ys: "map yaml cs = (case JArr [objA, objB] of JArr os \<Rightarrow> map (YAML_stringify ?E) os
                             | _ \<Rightarrow> [YAML_stringify ?E (JArr [objA, objB])])"
    and len: "length cs = (case JArr [objA, objB] of JArr os \<Rightarrow> length os | _ \<Rightarrow> 1)"
    and st: "\<forall>c \<in> set cs. status c = Pending"
    and ids: "map idC cs = map (uuidv4 ?E) [uuids (demoState False) ..< uuids (demoState False) + length cs]"
    and fresh: "inj (uuidv4 ?E) \<longrightarrow> distinct (map idC cs)
                  \<and> (\<forall>n < uuids (demoState False). uuidv4 ?E n \<notin> idC ` set cs)"
    using parseCommands_spec [OF p, of "demoState False"] by blast
  have l2: "length cs = 2" using len by simp
  have r: "parseCommands ?E docAB (demoState False) = (Inr cs, (demoState False)\<lparr>uuids := 2\<rparr>)"
    using run l2 u by simp
  have y: "map yaml cs = [docA, docB]"
    using ys by (simp add: demoEnv_simps demo_YAML_stringify_def objA_def objB_def)
  have "[0 ..< 2] = [0, Suc 0]"
    by (simp add: upt_rec)
  then have d: "map idC cs = [''uuid-'', ''uuid-i'']"
    using ids l2 u by (simp add: demoEnv_simps demo_uuidv4_def)
  have dist: "distinct (map idC cs)"
    using fresh i by simp
  show ?thesis
    using r y d dist st by (intro exI [of _ cs]) simp
qed

subsection \<open>What each operation leaves alone\<close>

lemma setRepl_fields [simp]:
  "repl (setRepl f s) = f (repl s)"
  "errorMessage (setRepl f s) = errorMessage s"
  "isMockGenerationEnabled (setRepl f s) = isMockGenerationEnabled s"
  "calls (setRepl f s) = calls s"
  "uuids (setRepl f s) = uuids s"
  by (simp_all add: setRepl_def)

lemma setErrorMessage_fields [simp]:
  "repl (setErrorMessage m s) = repl s"
  "errorMessage (setErrorMessage m s) = m"
  "isMockGenerationEnabled (setErrorMessage m s) = isMockGenerationEnabled s"
  "calls (setErrorMessage m s) = calls s"
  "uuids (setErrorMessage m s) = uuids s"
  by (simp_all add: setErrorMessage_def)

lemma await_fields [simp]:
  "fst (await E c s) = api E (calls s) c"
  "repl (snd (await E c s)) = repl s"
  "errorMessage (snd (await E c s)) = errorMessage s"
  "isMockGenerationEnabled (snd (await E c s)) = isMockGenerationEnabled s"
  "calls (snd (await E c s)) = calls s @ [c]"
  "uuids (snd (await E c s)) = uuids s"
  by (simp_all add: await_def)


lemma dispatched_append: "dispatched (xs @ ys) = dispatched xs @ dispatched ys"
  by (induction xs rule: dispatched.induct) auto

lemma parseCommands_fields:
  "repl (snd (parseCommands E t s)) = repl s"
  "errorMessage (snd (parseCommands E t s)) = errorMessage s"
  "isMockGenerationEnabled (snd (parseCommands E t s)) = isMockGenerationEnabled s"
  "calls (snd (parseCommands E t s)) = calls s"
  by (simp_all add: parseCommands_def Let_def split: option.splits)

lemma flatParse_fields:
  "repl (snd (flatParse E ys s)) = repl s
   \<and> errorMessage (snd (flatParse E ys s)) = errorMessage s
   \<and> isMockGenerationEnabled (snd (flatParse E ys s)) = isMockGenerationEnabled s
   \<and> calls (snd (flatParse E ys s)) = calls s"
proof (induction ys arbitrary: s)
  case Nil
  then show ?case by simp
next
  case (Cons y ys)
  obtain r s1 where p: "parseCommands E y s = (r, s1)"
    by (cases "parseCommands E y s")
  have s1: "repl s1 = repl s \<and> errorMessage s1 = errorMessage s
      \<and> isMockGenerationEnabled s1 = isMockGenerationEnabled s \<and> calls s1 = calls s"
    using parseCommands_fields [of E y s] p by simp
  show ?case
  proof (cases r)
    case (Inl e)
    then show ?thesis using p s1 by simp
  next
    case (Inr cs)
    obtain r2 s2 where f: "flatParse E ys s1 = (r2, s2)"
      by (cases "flatParse E ys s1")
    have "repl s2 = repl s1 \<and> errorMessage s2 = errorMessage s1
      \<and> isMockGenerationEnabled s2 = isMockGenerationEnabled s1 \<and> calls s2 = calls s1"
      using Cons.IH [of s1] f by simp
    then show ?thesis using p Inr f s1 by (cases r2) simp_all
  qed
qed



lemma markPending_fields [simp]:
  "calls (markPending cs s) = calls s"
  "isMockGenerationEnabled (markPending cs s) = isMockGenerationEnabled s"
  "errorMessage (markPending cs s) = errorMessage s"
  "uuids (markPending cs s) = uuids s"
  unfolding markPending_def by (induction cs arbitrary: s) simp_all


subsection \<open>Running by ids\<close>



subsection \<open>Submitting text\<close>

lemma dryRun_first_rejection:
  assumes "\<forall>k < length pre. \<exists>t.
             api E (calls s @ map (\<lambda>c. RunCommand (yaml c) True) (take k pre))
               (RunCommand (yaml (pre ! k)) True) = Resolved t"
    and "api E (calls s @ map (\<lambda>c. RunCommand (yaml c) True) pre) (RunCommand (yaml c) True)
           = Rejected m"
  shows "dryRun E (pre @ c # post) s
           = (Some m, s\<lparr>calls := calls s @ map (\<lambda>c. RunCommand (yaml c) True) pre
                                   @ [RunCommand (yaml c) True]\<rparr>)"
  using assms
proof (induction pre arbitrary: s)
  case Nil
  then show ?case by (simp add: await_def)
next
  case (Cons p ps)
  let ?s1 = "s\<lparr>calls := calls s @ [RunCommand (yaml p) True]\<rparr>"
  obtain t where t: "api E (calls s) (RunCommand (yaml p) True) = Resolved t"
    using Cons.prems(1) by fastforce
  have step: "dryRun E ((p # ps) @ c # post) s = dryRun E (ps @ c # post) ?s1"
    using t by (simp add: await_def)
  have a: "\<forall>k < length ps. \<exists>t.
             api E (calls ?s1 @ map (\<lambda>c. RunCommand (yaml c) True) (take k ps))
               (RunCommand (yaml (ps ! k)) True) = Resolved t"
  proof (intro allI impI)
    fix k assume "k < length ps"
    then have "Suc k < length (p # ps)" by simp
    then have "\<exists>t. api E (calls s @ map (\<lambda>c. RunCommand (yaml c) True) (take (Suc k) (p # ps)))
               (RunCommand (yaml ((p # ps) ! Suc k)) True) = Resolved t"
      using Cons.prems(1) by blast
    then show "\<exists>t. api E (calls ?s1 @ map (\<lambda>c. RunCommand (yaml c) True) (take k ps))
               (RunCommand (yaml (ps ! k)) True) = Resolved t"
      by simp
  qed
  have b: "api E (calls ?s1 @ map (\<lambda>c. RunCommand (yaml c) True) ps) (RunCommand (yaml c) True)
           = Rejected m"
    using Cons.prems(2) by simp
  show ?case
    unfolding step using Cons.IH [OF a b] by simp
qed

text \<open>
  C2. When the text parses to candidates and the dry run of one of them is rejected (the
  first rejected one being \<open>c\<close>, after the accepted ones \<open>pre\<close>), \<open>runCommandYaml\<close> returns
  false, the error message is the message of the rejection (the default text when that
  message is absent or empty), and the queue is the queue of before: no candidate is
  appended and no command is run.
\<close>

theorem runCommandYaml_atomic:
  assumes "fst (parseCommands E input s) = Inr (pre @ c # post)"
    and "\<forall>k < length pre. \<exists>t.
             api E (calls s @ map (\<lambda>c. RunCommand (yaml c) True) (take k pre))
               (RunCommand (yaml (pre ! k)) True) = Resolved t"
    and "api E (calls s @ map (\<lambda>c. RunCommand (yaml c) True) pre) (RunCommand (yaml c) True)
           = Rejected m"
  shows "fst (runCommandYaml E input s) = Inr False
         \<and> repl (snd (runCommandYaml E input s)) = repl s
         \<and> errorMessage (snd (runCommandYaml E input s))
             = Some (case m of None \<Rightarrow> ''Failed to run command''
                             | Some t \<Rightarrow> if t = [] then ''Failed to run command'' else t)
         \<and> dispatched (calls (snd (runCommandYaml E input s))) = dispatched (calls s)"
proof -
  obtain s1 where p: "parseCommands E input s = (Inr (pre @ c # post), s1)"
    using assms(1) by (cases "parseCommands E input s") simp
  have s1: "repl s1 = repl s \<and> calls s1 = calls s"
    using parseCommands_fields [of E input s] p by simp
  let ?s2 = "s1\<lparr>calls := calls s1 @ map (\<lambda>c. RunCommand (yaml c) True) pre
                                   @ [RunCommand (yaml c) True]\<rparr>"
  have d: "dryRun E (pre @ c # post) s1 = (Some m, ?s2)"
    using dryRun_first_rejection [of pre E s1 c m post] assms(2,3) s1 by simp
  have r: "runCommandYaml E input s
        = (Inr False, setErrorMessage (Some (messageOr m ''Failed to run command'')) ?s2)"
    using p d by (simp add: runCommandYaml_def)
  have dry: "dispatched (map (\<lambda>c. RunCommand (yaml c) True) xs) = []" for xs :: "ReplCommand list"
    by (induction xs) simp_all
  have "dispatched (calls ?s2) = dispatched (calls s)"
    using s1 by (simp add: dispatched_append dry)
  then show ?thesis
    using r s1 by (simp add: messageOr_def)
qed

theorem runCommandYaml_atomic_witness:
  "fst (runCommandYaml (demoEnv docB (Some ''Element not found'') []) docAB (demoState False)) = Inr False
   \<and> repl (snd (runCommandYaml (demoEnv docB (Some ''Element not found'') []) docAB (demoState False)))
       = queueABC
   \<and> errorMessage (snd (runCommandYaml (demoEnv docB (Some ''Element not found'') []) docAB (demoState False)))
       = Some ''Element not found''"
proof -
  let ?E = "demoEnv docB (Some ''Element not found'') []"
  let ?s = "demoState False"
  let ?a = "\<lparr>idC = ''uuid-'', status = Pending, yaml = docA\<rparr>"
  let ?b = "\<lparr>idC = ''uuid-i'', status = Pending, yaml = docB\<rparr>"
  have p: "fst (parseCommands ?E docAB ?s) = Inr ([?a] @ ?b # [])"
    by (simp add: parseCommands_def documents_def demoEnv_simps demo_YAML_parse_def
        demo_YAML_stringify_def demo_uuidv4_def demoState_def
        docAB_def docA_def docB_def nl_def objA_def objB_def)
  have acc: "\<forall>k < length [?a]. \<exists>t.
             api ?E (calls ?s @ map (\<lambda>c. RunCommand (yaml c) True) (take k [?a]))
               (RunCommand (yaml ([?a] ! k)) True) = Resolved t"
    by (simp add: demoEnv_simps demo_api_def docA_def docB_def)
  have rej: "api ?E (calls ?s @ map (\<lambda>c. RunCommand (yaml c) True) [?a]) (RunCommand (yaml ?b) True)
           = Rejected (Some ''Element not found'')"
    by (simp add: demoEnv_simps demo_api_def)
  have q: "repl ?s = queueABC"
    by (simp add: demoState_def)
  show ?thesis
    using runCommandYaml_atomic [OF p acc rej] q by simp
qed

subsection \<open>A capture response that is not an array\<close>

lemma setCommandStatus_again:
  "setCommandStatus i b (setCommandStatus i a r) = setCommandStatus i b r"
  by (simp add: setCommandStatus_def comp_def if_distrib [of "\<lambda>c. c\<lparr>status := b\<rparr>"] cong: if_cong)

lemma insertMocks_none: "insertMocks i [] r = r"
  by (simp add: insertMocks_def)

text \<open>
  C4. With mock generation enabled, when the execution of a command succeeds and the text
  that \<open>getMock\<close> returns is not the JSON text of an array, no command is inserted, the
  error message is set, the command becomes \<open>success\<close>, \<open>runCommand\<close> returns true, and
  the loop goes on to the next command with its flag unset.
\<close>

theorem runCommand_capture_malformed:
  assumes "isMockGenerationEnabled s"
    and "api E (calls s) (RunCommand (yaml c) False) = Resolved t"
    and "api E (calls s @ [RunCommand (yaml c) False]) GetMock = Resolved rawResult"
    and "\<forall>parsedResults. JSON_parse E rawResult \<noteq> Some (JArr parsedResults)"
  shows "fst (runCommand E c s) = True
         \<and> repl (snd (runCommand E c s)) = setCommandStatus (idC c) Success (repl s)
         \<and> errorMessage (snd (runCommand E c s)) = Some ''Error parsing API response''
         \<and> runLoop E False (c # rest) s = runLoop E False rest (snd (runCommand E c s))"
proof -
  let ?s0 = "setRepl (setCommandStatus (idC c) Running) s"
  let ?s1 = "?s0\<lparr>calls := calls s @ [RunCommand (yaml c) False]\<rparr>"
  let ?s2 = "?s1\<lparr>calls := calls s @ [RunCommand (yaml c) False, GetMock]\<rparr>"
  have a: "await E (RunCommand (yaml c) False) ?s0 = (Resolved t, ?s1)"
    using assms(2) by (simp add: await_def)
  have g: "await E GetMock ?s1 = (Resolved rawResult, ?s2)"
    using assms(3) by (simp add: await_def)
  have m: "runGetMocks E ?s1 = parsingFailed ?s2"
    using g assms(4) by (simp add: runGetMocks_def split: option.splits jsvalue.splits)
  have on: "isMockGenerationEnabled ?s1"
    using assms(1) by simp
  have r: "runCommand E c s
      = (True, setRepl (setCommandStatus (idC c) Success)
                 (setRepl (insertMocks (idC c) [])
                    (setErrorMessage (Some ''Error parsing API response'') ?s2)))"
    using a m on unfolding runCommand_def Let_def parsingFailed_def by simp
  have 1: "fst (runCommand E c s) = True"
    using r by simp
  have 2: "repl (snd (runCommand E c s)) = setCommandStatus (idC c) Success (repl s)"
    using r by (simp add: insertMocks_none setCommandStatus_again)
  have 3: "errorMessage (snd (runCommand E c s)) = Some ''Error parsing API response''"
    using r by simp
  have 4: "runLoop E False (c # rest) s = runLoop E False rest (snd (runCommand E c s))"
    using 1 by (cases "runCommand E c s") simp
  from 1 2 3 4 show ?thesis by simp
qed

theorem runCommand_capture_malformed_witness:
  "fst (runCommand (demoEnv [] None ''{}'') cmdB (demoState True)) = True
   \<and> commands (repl (snd (runCommand (demoEnv [] None ''{}'') cmdB (demoState True))))
       = [cmdA, cmdB\<lparr>status := Success\<rparr>, cmdC]
   \<and> errorMessage (snd (runCommand (demoEnv [] None ''{}'') cmdB (demoState True)))
       = Some ''Error parsing API response''"
proof -
  let ?E = "demoEnv [] None ''{}''"
  let ?s = "demoState True"
  have on: "isMockGenerationEnabled ?s"
    by (simp add: demoState_def)
  have run: "api ?E (calls ?s) (RunCommand (yaml cmdB) False) = Resolved []"
    by (simp add: demoEnv_simps demo_api_def cmdB_def)
  have get: "api ?E (calls ?s @ [RunCommand (yaml cmdB) False]) GetMock = Resolved ''{}''"
    by (simp add: demoEnv_simps demo_api_def)
  have bad: "\<forall>parsedResults. JSON_parse ?E ''{}'' \<noteq> Some (JArr parsedResults)"
    by (simp add: demoEnv_simps demo_JSON_parse_def capture2_def)
  have q: "commands (setCommandStatus (idC cmdB) Success (repl ?s)) = [cmdA, cmdB\<lparr>status := Success\<rparr>, cmdC]"
    by (simp add: setCommandStatus_def demoState_def queueABC_def cmdA_def cmdB_def cmdC_def)
  show ?thesis
    using runCommand_capture_malformed [OF on run get bad] q by simp
qed

subsection \<open>Statuses along a run\<close>

lemma setCommandStatus_ids:
  "idC ` set (commands (setCommandStatus j st r)) = idC ` set (commands r)"
proof -
  have "map idC (commands (setCommandStatus j st r)) = map idC (commands r)"
    by (simp add: setCommandStatus_commands)
  then have "set (map idC (commands (setCommandStatus j st r))) = set (map idC (commands r))"
    by (rule arg_cong)
  then show ?thesis by (simp only: set_map)
qed


























subsection \<open>Inserting the mock commands\<close>

lemma findIndex_found:
  "\<exists>x \<in> set xs. P x \<Longrightarrow> findIndex P xs = int (length (takeWhile (\<lambda>x. \<not> P x) xs))"
proof (induction xs)
  case Nil
  then show ?case by simp
next
  case (Cons a xs)
  show ?case
  proof (cases "P a")
    case True
    then show ?thesis by simp
  next
    case False
    then have "\<exists>x \<in> set xs. P x" using Cons.prems by simp
    then have "findIndex P xs = int (length (takeWhile (\<lambda>x. \<not> P x) xs))"
      by (rule Cons.IH)
    then show ?thesis using False by (simp add: Let_def)
  qed
qed

lemma splice0_within:
  "k \<le> length cs \<Longrightarrow> splice0 (int k) m cs = take k cs @ m # drop k cs"
  by (simp add: splice0_def Let_def min_def)

lemma spliceAll_within:
  "k \<le> length cs \<Longrightarrow> spliceAll (int k) ms cs = take k cs @ ms @ drop k cs"
proof (induction ms arbitrary: k cs)
  case Nil
  then show ?case by simp
next
  case (Cons m ms)
  let ?cs1 = "take k cs @ m # drop k cs"
  have k1: "Suc k \<le> length ?cs1" using Cons.prems by simp
  have "spliceAll (int k) (m # ms) cs = spliceAll (int (Suc k)) ms ?cs1"
    using Cons.prems by (simp add: splice0_within add.commute)
  also have "\<dots> = take (Suc k) ?cs1 @ ms @ drop (Suc k) ?cs1"
    using k1 by (rule Cons.IH)
  also have "\<dots> = take k cs @ (m # ms) @ drop k cs"
    using Cons.prems by simp
  finally show ?case .
qed

lemma mockYamls_all:
  "\<forall>item \<in> set items. \<not> nullish item \<Longrightarrow>
   mockYamls E items = Inr (map (\<lambda>item. YAML_stringify E (mockObject item)) items)"
  by (induction items) (simp_all add: mockResult_def)

lemma flatParse_all:
  "\<forall>y \<in> set ys. YAML_parse E y \<noteq> None \<Longrightarrow>
   \<exists>cs s1. flatParse E ys s = (Inr cs, s1) \<and> map yaml cs = concat (map (payloadsOf E) ys)"
proof (induction ys arbitrary: s)
  case Nil
  then show ?case by simp
next
  case (Cons y ys)
  obtain parsed where p: "YAML_parse E y = Some parsed"
    using Cons.prems by auto
  obtain cs1 where c1: "parseCommands E y s = (Inr cs1, s\<lparr>uuids := uuids s + length cs1\<rparr>)"
    and y1: "map yaml cs1 = documents E parsed"
    by (simp add: parseCommands_def p Let_def newCommands_yaml newCommands_length)
  let ?s1 = "s\<lparr>uuids := uuids s + length cs1\<rparr>"
  obtain cs2 s2 where c2: "flatParse E ys ?s1 = (Inr cs2, s2)"
    and y2: "map yaml cs2 = concat (map (payloadsOf E) ys)"
    using Cons.IH [of ?s1] Cons.prems by auto
  have "flatParse E (y # ys) s = (Inr (cs1 @ cs2), s2)"
    using c1 c2 by simp
  moreover have "map yaml (cs1 @ cs2) = concat (map (payloadsOf E) (y # ys))"
    using y1 y2 p by (simp add: payloadsOf_def)
  ultimately show ?case by blast
qed

lemma success_again:
  "status m = Success \<Longrightarrow> (if idC m = i then m\<lparr>status := Success\<rparr> else m) = m"
  by simp

text \<open>
  C1, as the code has it. With mock generation enabled, when the execution of a command
  of the queue succeeds and the capture response is a JSON array of records (none of them
  null, their texts accepted by the parser), \<open>runCommand\<close> returns true and the commands
  built from the records, all with the status \<open>success\<close> and with the payloads of the
  records in the order of the response, stand in the queue from the position that the
  command had on: immediately before the command, which follows the last of them.
\<close>

theorem runCommand_inserts_mocks:
  assumes "isMockGenerationEnabled s"
    and "idC c \<in> idC ` set (commands (repl s))"
    and "api E (calls s) (RunCommand (yaml c) False) = Resolved t"
    and "api E (calls s @ [RunCommand (yaml c) False]) GetMock = Resolved rawResult"
    and "JSON_parse E rawResult = Some (JArr items)"
    and "\<forall>item \<in> set items. \<not> nullish item"
    and "\<forall>item \<in> set items. YAML_parse E (YAML_stringify E (mockObject item)) \<noteq> None"
  shows "\<exists>ms. fst (runCommand E c s)
           \<and> commands (repl (snd (runCommand E c s)))
               = take (length (takeWhile (\<lambda>d. idC d \<noteq> idC c) (commands (repl s))))
                   (commands (setCommandStatus (idC c) Success (repl s)))
                 @ ms
                 @ drop (length (takeWhile (\<lambda>d. idC d \<noteq> idC c) (commands (repl s))))
                     (commands (setCommandStatus (idC c) Success (repl s)))
           \<and> (\<forall>m \<in> set ms. status m = Success)
           \<and> map yaml ms
               = concat (map (\<lambda>item. payloadsOf E (YAML_stringify E (mockObject item))) items)"
proof -
  let ?i = "length (takeWhile (\<lambda>d. idC d \<noteq> idC c) (commands (repl s)))"
  let ?run = "\<lambda>d. if idC d = idC c then d\<lparr>status := Running\<rparr> else d"
  let ?ok = "\<lambda>d. if idC d = idC c then d\<lparr>status := Success\<rparr> else d"
  let ?s0 = "setRepl (setCommandStatus (idC c) Running) s"
  let ?s1 = "?s0\<lparr>calls := calls s @ [RunCommand (yaml c) False]\<rparr>"
  let ?s2 = "?s1\<lparr>calls := calls s @ [RunCommand (yaml c) False, GetMock]\<rparr>"
  let ?ys = "map (\<lambda>item. YAML_stringify E (mockObject item)) items"
  have a: "await E (RunCommand (yaml c) False) ?s0 = (Resolved t, ?s1)"
    using assms(3) by (simp add: await_def)
  have g: "await E GetMock ?s1 = (Resolved rawResult, ?s2)"
    using assms(4) by (simp add: await_def)
  have "\<forall>y \<in> set ?ys. YAML_parse E y \<noteq> None"
    using assms(7) by simp
  then obtain cs s3 where f: "flatParse E ?ys ?s2 = (Inr cs, s3)"
    and pay: "map yaml cs = concat (map (payloadsOf E) ?ys)"
    using flatParse_all [of ?ys E ?s2] by blast
  define ms where "ms = map (\<lambda>command. command\<lparr>status := Success\<rparr>) cs"
  have m: "runGetMocks E ?s1 = (Inr ms, s3)"
    using g assms(5) mockYamls_all [OF assms(6), of E] f
    by (simp add: runGetMocks_def ms_def)
  have s3: "repl s3 = repl ?s2"
    using flatParse_fields [of E ?ys ?s2] f by simp
  have on: "isMockGenerationEnabled ?s1"
    using assms(1) by simp
  have r: "runCommand E c s
      = (True, setRepl (setCommandStatus (idC c) Success) (setRepl (insertMocks (idC c) ms) s3))"
    using a m on unfolding runCommand_def Let_def by simp
  have all_ok: "\<forall>m \<in> set ms. status m = Success"
    by (simp add: ms_def)
  have pay_ms: "map yaml ms = concat (map (\<lambda>item. payloadsOf E (YAML_stringify E (mockObject item))) items)"
    using pay by (simp add: ms_def comp_def)
  let ?q1 = "map ?run (commands (repl s))"
  have q1: "commands (repl s3) = ?q1"
    using s3 by (simp add: setCommandStatus_commands)
  have "idC c \<in> idC ` set (commands (setCommandStatus (idC c) Running (repl s)))"
    using assms(2) by (simp only: setCommandStatus_ids)
  then have "idC c \<in> idC ` set ?q1"
    by (simp only: setCommandStatus_commands)
  then have "\<exists>d \<in> set ?q1. idC d = idC c"
    by (rule imageE) (rule bexI, rule sym)
  then have "findIndex (\<lambda>d. idC d = idC c) ?q1 = int (length (takeWhile (\<lambda>d. \<not> idC d = idC c) ?q1))"
    by (rule findIndex_found)
  moreover have "takeWhile (\<lambda>d. \<not> idC d = idC c) ?q1 = map ?run (takeWhile (\<lambda>d. idC d \<noteq> idC c) (commands (repl s)))"
    by (simp add: takeWhile_map comp_def cong: if_cong)
  ultimately have idx: "findIndex (\<lambda>d. idC d = idC c) ?q1 = int ?i"
    by simp
  have le: "?i \<le> length ?q1"
    by (simp add: length_takeWhile_le)
  have ins: "commands (insertMocks (idC c) ms (repl s3)) = take ?i ?q1 @ ms @ drop ?i ?q1"
    unfolding insertMocks_def q1 using idx spliceAll_within [OF le, of ms] by simp
  have ms_fix: "map ?ok ms = ms"
    using all_ok by (intro map_idI) simp
  have run_ok: "map ?ok ?q1 = map ?ok (commands (repl s))"
    by simp
  have "commands (repl (snd (runCommand E c s))) = map ?ok (take ?i ?q1 @ ms @ drop ?i ?q1)"
    using r ins by (simp add: setCommandStatus_commands)
  also have "\<dots> = take ?i (map ?ok ?q1) @ map ?ok ms @ drop ?i (map ?ok ?q1)"
    by (simp only: map_append take_map drop_map)
  also have "\<dots> = take ?i (commands (setCommandStatus (idC c) Success (repl s))) @ ms
                    @ drop ?i (commands (setCommandStatus (idC c) Success (repl s)))"
    unfolding ms_fix run_ok by (simp only: setCommandStatus_commands)
  finally have place: "commands (repl (snd (runCommand E c s)))
      = take ?i (commands (setCommandStatus (idC c) Success (repl s))) @ ms
        @ drop ?i (commands (setCommandStatus (idC c) Success (repl s)))" .
  have "fst (runCommand E c s)" using r by simp
  with place all_ok pay_ms show ?thesis by blast
qed

lemma mockObject_record1: "mockObject record1 = record1"
  by (simp add: mockObject_def record1_def optProp_def or_else_def Let_def)

lemma mockObject_record2: "mockObject record2 = record2"
  by (simp add: mockObject_def record2_def optProp_def or_else_def Let_def)

theorem runCommand_inserts_mocks_witness:
  "\<exists>ms. fst (runCommand (demoEnv [] None capture2) cmdB (demoState True))
         \<and> commands (repl (snd (runCommand (demoEnv [] None capture2) cmdB (demoState True))))
             = [cmdA] @ ms @ [cmdB\<lparr>status := Success\<rparr>, cmdC]
         \<and> (\<forall>m \<in> set ms. status m = Success)
         \<and> map yaml ms = [mockDoc1, mockDoc2]"
proof -
  let ?E = "demoEnv [] None capture2"
  let ?s = "demoState True"
  have on: "isMockGenerationEnabled ?s"
    by (simp add: demoState_def)
  have inq: "idC cmdB \<in> idC ` set (commands (repl ?s))"
    by (simp add: demoState_def queueABC_def)
  have run: "api ?E (calls ?s) (RunCommand (yaml cmdB) False) = Resolved []"
    by (simp add: demoEnv_simps demo_api_def cmdB_def)
  have get: "api ?E (calls ?s @ [RunCommand (yaml cmdB) False]) GetMock = Resolved capture2"
    by (simp add: demoEnv_simps demo_api_def)
  have arr: "JSON_parse ?E capture2 = Some (JArr [record1, record2])"
    by (simp add: demoEnv_simps demo_JSON_parse_def)
  have nonnull: "\<forall>item \<in> set [record1, record2]. \<not> nullish item"
    by (simp add: record1_def record2_def)
  have d1: "YAML_stringify ?E record1 = mockDoc1"
    by (simp add: demoEnv_simps demo_YAML_stringify_def record1_def objA_def objB_def)
  have d2: "YAML_stringify ?E record2 = mockDoc2"
    by (simp add: demoEnv_simps demo_YAML_stringify_def record1_def record2_def objA_def objB_def)
  have p1: "YAML_parse ?E mockDoc1 = Some record1"
    by (simp add: demoEnv_simps demo_YAML_parse_def mockDoc1_def docA_def docB_def docAB_def nl_def)
  have p2: "YAML_parse ?E mockDoc2 = Some record2"
    by (simp add: demoEnv_simps demo_YAML_parse_def mockDoc1_def mockDoc2_def docA_def docB_def
        docAB_def nl_def)
  have parses: "\<forall>item \<in> set [record1, record2].
      YAML_parse ?E (YAML_stringify ?E (mockObject item)) \<noteq> None"
    by (simp add: mockObject_record1 mockObject_record2 d1 d2 p1 p2)
  have docs1: "documents ?E record1 = [YAML_stringify ?E record1]"
    by (simp add: documents_def record1_def)
  have docs2: "documents ?E record2 = [YAML_stringify ?E record2]"
    by (simp add: documents_def record2_def)
  have pay: "concat (map (\<lambda>item. payloadsOf ?E (YAML_stringify ?E (mockObject item))) [record1, record2])
      = [mockDoc1, mockDoc2]"
    by (simp add: mockObject_record1 mockObject_record2 d1 d2 p1 p2 payloadsOf_def docs1 docs2)
  have i: "length (takeWhile (\<lambda>d. idC d \<noteq> idC cmdB) (commands (repl ?s))) = 1"
    by (simp add: demoState_def queueABC_def cmdA_def cmdB_def cmdC_def)
  have q: "commands (setCommandStatus (idC cmdB) Success (repl ?s)) = [cmdA, cmdB\<lparr>status := Success\<rparr>, cmdC]"
    by (simp add: setCommandStatus_def demoState_def queueABC_def cmdA_def cmdB_def cmdC_def)
  show ?thesis
    using runCommand_inserts_mocks [OF on inq run get arr nonnull parses]
    unfolding i q pay by simp
qed

text \<open>
  C1, as it is stated, fails: after the run of the command \<open>b\<close> of the queue \<open>a, b, c\<close>
  with two capture records, the two new commands stand before \<open>b\<close>, not after it.
\<close>

theorem runCommand_mocks_after_counterexample:
  "fst (runCommand (demoEnv [] None capture2) cmdB (demoState True))
   \<and> map idC (commands (repl (snd (runCommand (demoEnv [] None capture2) cmdB (demoState True)))))
       = [''a'', ''uuid-'', ''uuid-i'', ''b'', ''c'']
   \<and> map idC (commands (repl (snd (runCommand (demoEnv [] None capture2) cmdB (demoState True)))))
       \<noteq> [''a'', ''b'', ''uuid-'', ''uuid-i'', ''c'']"
  by code_simp

subsection \<open>Restoring the queue\<close>

lemma indexKey_last: "last (indexKey n) \<in> set ''0123456789''"
proof -
  have digit: "''0123456789'' ! k \<in> set ''0123456789''" if "k < 10" for k
    using that by (intro nth_mem) simp
  have "n mod 10 < 10" by simp
  then have m: "''0123456789'' ! (n mod 10) \<in> set ''0123456789''" by (rule digit)
  show ?thesis
  proof (cases "n < 10")
    case True
    then have "last (indexKey n) = ''0123456789'' ! n"
      by (simp add: indexKey.simps [of n])
    then show ?thesis using digit [OF True] by simp
  next
    case False
    then have "last (indexKey n) = ''0123456789'' ! (n mod 10)"
      by (simp add: indexKey.simps [of n])
    then show ?thesis using m by simp
  qed
qed

lemma indexKey_not_command: "indexKey n \<noteq> ''command''"
proof
  assume "indexKey n = ''command''"
  then have "last (indexKey n) = CHR ''d''" by simp
  then show False using indexKey_last [of n] by simp
qed

lemma reviver_index: "reviver (indexKey n) v = v"
  by (simp add: reviver_def indexKey_not_command)

lemma reviver_root: "reviver [] v = v"
  by (simp add: reviver_def)

lemma internalize_plain:
  "plain v \<Longrightarrow> internalize k v = reviver k v"
  "plainElements xs \<Longrightarrow> internalizeElements n xs = xs"
  "plainProperties ps \<Longrightarrow> internalizeProperties ps = ps"
proof (induction k v and n xs and ps rule: internalize_internalizeElements_internalizeProperties.induct)
  case (7 k v ps)
  have "internalize k v = reviver k v" using 7 by simp
  moreover have "reviver k v = v" using 7(3) by (auto simp: reviver_def)
  ultimately show ?case using 7 by simp
qed (simp_all add: reviver_index)

lemma internalizeProperties_map:
  "internalizeProperties ps = map (\<lambda>(k, v). (k, internalize k v)) ps"
  by (induction ps) auto



lemma internalize_entry: "internalize (indexKey n) (JObj ps) = JObj (internalizeProperties ps)"
  by (simp add: reviver_index)




subsection \<open>Persisting and restoring\<close>

lemma readStatus_name: "readStatus (JStr (statusName st)) = Some st"
  by (cases st) (simp_all add: readStatus_def)

lemma readCommand_value: "readCommand (commandValue c) = Some c"
  by (simp add: readCommand_def commandValue_def readStatus_name)

lemma readCommands_values: "readCommands (map commandValue cs) = Some cs"
  by (induction cs) (simp_all add: readCommand_value)

lemma readRepl_value: "readRepl (replValue r) = Some r"
  by (simp add: readRepl_def replValue_def readCommands_values)

lemma plain_commandValues: "plainElements (map commandValue cs)"
  by (induction cs) (simp_all add: commandValue_def)

lemma plain_replValue: "plain (replValue r)"
  by (simp add: replValue_def plain_commandValues)

text \<open>
  C9. When \<open>JSON.parse\<close> returns on the text that \<open>JSON.stringify\<close> made of the state the
  value it was made of, and that text is not empty, restoring from the store written by
  the provider returns that value, which reads back as the state that was persisted: the
  same commands in the same order, with their ids, payloads and statuses.
\<close>

theorem restore_persisted:
  assumes "JSON_parse E (JSON_stringify E (replValue r)) = Some (replValue r)"
    and "JSON_stringify E (replValue r) \<noteq> []"
  shows "restoreRepl E (persist E r ls) = Inr (replValue r)
         \<and> readRepl (replValue r) = Some r
         \<and> (case restoreRepl E (persist E r ls) of Inl e \<Rightarrow> None | Inr v \<Rightarrow> readRepl v) = Some r"
proof -
  have "restoreRepl E (persist E r ls) = Inr (internalize [] (replValue r))"
    using assms by (simp add: restoreRepl_def persist_def)
  also have "\<dots> = Inr (replValue r)"
    by (simp add: internalize_plain(1) [OF plain_replValue] reviver_root)
  finally have 1: "restoreRepl E (persist E r ls) = Inr (replValue r)" .
  then show ?thesis by (simp add: readRepl_value)
qed

theorem restore_persisted_witness:
  "restoreRepl (demoEnv [] None []) (persist (demoEnv [] None []) queueABC Map.empty)
     = Inr (replValue queueABC)
   \<and> readRepl (replValue queueABC) = Some queueABC"
proof -
  let ?E = "demoEnv [] None []"
  have s: "JSON_stringify ?E (replValue queueABC) = storedABC"
    by (simp add: demoEnv_simps demo_JSON_stringify_def)
  have a: "JSON_parse ?E (JSON_stringify ?E (replValue queueABC)) = Some (replValue queueABC)"
    unfolding s by (simp add: demoEnv_simps demo_JSON_parse_def storedABC_def capture2_def)
  have b: "JSON_stringify ?E (replValue queueABC) \<noteq> []"
    unfolding s by (simp add: storedABC_def)
  show ?thesis
    using restore_persisted [OF a b, of Map.empty] by simp
qed

end
